theory Spec2Isabelle
  imports Main "HOL-Library.Sublist"
begin

section \<open>The text operations of \<open>fix_index.py\<close>\<close>

text \<open>
  The script reads \<open>src/index.ts\<close> into the Python string \<open>content\<close>, rewrites it
  three times (\<open>str.replace\<close>, \<open>re.sub\<close>, \<open>str.replace\<close>), writes the result back and
  prints four lines. A Python string is a sequence of characters; it is modelled as a
  list. The generic operations are polymorphic in the character type; the script
  itself is stated over \<open>string\<close>. Every anchor and every inserted text of the script is
  ASCII, so a character of the file outside ASCII never takes part in a match.
\<close>

subsection \<open>\<open>str.replace(old, new)\<close>\<close>

text \<open>
  \<open>s.replace(old, new)\<close> without a count scans \<open>s\<close> from the left and replaces every
  occurrence of \<open>old\<close> that does not overlap a previous one. With an empty \<open>old\<close>
  Python puts \<open>new\<close> before every character and at the end.
\<close>

function replace_all :: "'a list \<Rightarrow> 'a list \<Rightarrow> 'a list \<Rightarrow> 'a list" where
  "replace_all old new [] = (if old = [] then new else [])"
| "replace_all old new (c # cs) =
     (if old = [] then new @ c # replace_all old new cs
      else if prefix old (c # cs)
        then new @ replace_all old new (drop (length old) (c # cs))
        else c # replace_all old new cs)"
  by pat_completeness auto
termination
  by (relation "measure (\<lambda>(old, new, s). length s)") (auto simp: Suc_le_eq)

text \<open>\<open>old in s\<close>: some position of \<open>s\<close> starts an occurrence of \<open>old\<close>.\<close>

fun occurs :: "'a list \<Rightarrow> 'a list \<Rightarrow> bool" where
  "occurs old [] = (old = [])"
| "occurs old (c # cs) = (prefix old (c # cs) \<or> occurs old cs)"

text \<open>The number of positions of \<open>s\<close> that start an occurrence of \<open>old\<close>
  (overlapping occurrences are all counted).\<close>

fun count_occ :: "'a list \<Rightarrow> 'a list \<Rightarrow> nat" where
  "count_occ old [] = (if old = [] then 1 else 0)"
| "count_occ old (c # cs) = (if prefix old (c # cs) then 1 else 0) + count_occ old cs"

text \<open>\<open>s.find(old)\<close>: the index of the first occurrence, \<open>None\<close> for Python's \<open>-1\<close>.\<close>

fun find_idx :: "'a list \<Rightarrow> 'a list \<Rightarrow> nat option" where
  "find_idx old [] = (if old = [] then Some 0 else None)"
| "find_idx old (c # cs) =
     (if prefix old (c # cs) then Some 0 else map_option Suc (find_idx old cs))"

subsection \<open>The texts of the script\<close>

definition NL :: char where
  "NL = CHR 0x0A"

text \<open>The literal first argument of the first \<open>content.replace\<close> (line 24).\<close>

definition import_anchor :: string where
  "import_anchor = ''} from './tools/performance.js';''"

text \<open>\<open>import_statement\<close> (lines 9 to 20): eleven lines, each ended by a newline.\<close>

definition import_statement :: string where
  "import_statement =
     ''import {'' @ [NL] @
     ''  addDatabaseFileTool,'' @ [NL] @
     ''  removeDatabaseFileTool,'' @ [NL] @
     ''  modifyDatabaseFileTool,'' @ [NL] @
     ''  shrinkDatabaseFileTool,'' @ [NL] @
     ''  createFilegroupTool,'' @ [NL] @
     ''  removeFilegroupTool,'' @ [NL] @
     ''  modifyFilegroupTool,'' @ [NL] @
     ''  listFilegroupsTool,'' @ [NL] @
     ''  listDatabaseFilesTool,'' @ [NL] @
     ''} from './tools/file-management.js';'' @ [NL]"

text \<open>The second argument of the first \<open>content.replace\<close> (line 25).\<close>

definition import_replacement :: string where
  "import_replacement = import_anchor @ [NL] @ import_statement"

text \<open>\<open>tools_addition\<close> (lines 29 to 39): it starts with a newline and has no
  newline at its end.\<close>

definition tools_addition :: string where
  "tools_addition =
     [NL] @ ''  // File and filegroup management tools'' @
     [NL] @ ''  addDatabaseFileTool,'' @
     [NL] @ ''  removeDatabaseFileTool,'' @
     [NL] @ ''  modifyDatabaseFileTool,'' @
     [NL] @ ''  shrinkDatabaseFileTool,'' @
     [NL] @ ''  createFilegroupTool,'' @
     [NL] @ ''  removeFilegroupTool,'' @
     [NL] @ ''  modifyFilegroupTool,'' @
     [NL] @ ''  listFilegroupsTool,'' @
     [NL] @ ''  listDatabaseFilesTool,''"

text \<open>
  The pattern of \<open>re.sub\<close> (line 43) is \<open>r"(  getWaitStatsTool,)\n(];)"\<close>: group 1,
  a newline, group 2. None of its characters is a regular-expression operator apart
  from the two pairs of parentheses, so it matches exactly the text of group 1, a
  newline and the text of group 2.
\<close>

definition tools_group1 :: string where
  "tools_group1 = ''  getWaitStatsTool,''"

definition tools_group2 :: string where
  "tools_group2 = ''];''"

definition tools_anchor :: string where
  "tools_anchor = tools_group1 @ [NL] @ tools_group2"

text \<open>
  The replacement of \<open>re.sub\<close> (line 44) is \<open>r"\1" + tools_addition + "\n\2"\<close>. Its
  first part is a raw string, the reference to group 1. Its last part is not raw:
  in the Python literal \<open>"\n\2"\<close> the escape \<open>\2\<close> is an octal escape, so the literal is
  a newline followed by the character with code 2, and the template holds no
  reference to group 2.
\<close>

datatype piece = Ref nat | Text string

definition tools_template :: "piece list" where
  "tools_template = [Ref 1, Text tools_addition, Text [NL, CHR 0x02]]"

text \<open>Expanding a template for a match: a reference stands for the text of its
  group, everything else for itself.\<close>

fun expand :: "string list \<Rightarrow> piece list \<Rightarrow> string" where
  "expand groups [] = []"
| "expand groups (Ref g # ps) =
     (if 0 < g \<and> g \<le> length groups then groups ! (g - 1) else []) @ expand groups ps"
| "expand groups (Text t # ps) = t @ expand groups ps"

definition tools_replacement :: string where
  "tools_replacement = expand [tools_group1, tools_group2] tools_template"

text \<open>\<open>write_ops\<close> (lines 49 to 56): seven lines, each ended by a newline.\<close>

definition write_ops :: string where
  "write_ops =
     ''  'sqlserver_add_database_file','' @ [NL] @
     ''  'sqlserver_remove_database_file','' @ [NL] @
     ''  'sqlserver_modify_database_file','' @ [NL] @
     ''  'sqlserver_shrink_database_file','' @ [NL] @
     ''  'sqlserver_create_filegroup','' @ [NL] @
     ''  'sqlserver_remove_filegroup','' @ [NL] @
     ''  'sqlserver_modify_filegroup','' @ [NL]"

text \<open>The two arguments of the second \<open>content.replace\<close> (lines 60 and 61).\<close>

definition write_anchor :: string where
  "write_anchor = ''  'sqlserver_delete_job','' @ [NL] @ '']);''"

definition write_replacement :: string where
  "write_replacement = ''  'sqlserver_delete_job','' @ [NL] @ write_ops @ '']);''"

subsection \<open>The three steps and their composition\<close>

definition apply_import :: "string \<Rightarrow> string" where
  "apply_import content = replace_all import_anchor import_replacement content"

text \<open>\<open>re.sub\<close> replaces every match that does not overlap a previous one, leftmost
  first; the pattern matches one fixed non-empty text, so the groups and the
  expansion of the template are the same at every match.\<close>

definition apply_tools :: "string \<Rightarrow> string" where
  "apply_tools content = replace_all tools_anchor tools_replacement content"

definition apply_write_ops :: "string \<Rightarrow> string" where
  "apply_write_ops content = replace_all write_anchor write_replacement content"

definition transform :: "string \<Rightarrow> string" where
  "transform content = apply_write_ops (apply_tools (apply_import content))"

subsection \<open>The script as a whole\<close>

text \<open>
  The script touches one file and the standard output. \<open>stored\<close> is the text of
  \<open>src/index.ts\<close> (\<open>None\<close> when it does not exist), \<open>readable\<close> and \<open>writable\<close> say
  whether \<open>open\<close> succeeds in mode \<open>'r'\<close> and in mode \<open>'w'\<close>, \<open>write_opens\<close> counts the
  calls of \<open>open\<close> in mode \<open>'w'\<close>, and \<open>stdout\<close> holds the printed lines. The script
  catches no exception, so an error ends the run where it is raised.
\<close>

datatype error = FileNotFoundError | PermissionError

record world =
  stored :: "string option"
  readable :: bool
  writable :: bool
  write_opens :: nat
  stdout :: "string list"

text \<open>Lines 5 and 6: \<open>open(..., 'r')\<close> and \<open>f.read()\<close>.\<close>

definition read_file :: "world \<Rightarrow> error + string" where
  "read_file w =
     (case stored w of
        None \<Rightarrow> Inl FileNotFoundError
      | Some content \<Rightarrow> if readable w then Inr content else Inl PermissionError)"

text \<open>Lines 65 and 66: \<open>open(..., 'w')\<close> and \<open>f.write(content)\<close>.\<close>

definition write_file :: "string \<Rightarrow> world \<Rightarrow> error option \<times> world" where
  "write_file content w =
     (let w1 = w\<lparr>write_opens := Suc (write_opens w)\<rparr>
      in if writable w then (None, w1\<lparr>stored := Some content\<rparr>)
         else (Some PermissionError, w1))"

text \<open>Lines 68 to 71: four \<open>print\<close> calls with literal arguments.\<close>

definition summary :: "string list" where
  "summary =
     [''Successfully updated index.ts'',
      ''- Added file-management import'',
      ''- Added 9 new tools to tools array'',
      ''- Added 7 write operations to writeOperations set'']"

definition main :: "world \<Rightarrow> error option \<times> world" where
  "main w =
     (case read_file w of
        Inl e \<Rightarrow> (Some e, w)
      | Inr content \<Rightarrow>
          (case write_file (transform content) w of
             (Some e, w1) \<Rightarrow> (Some e, w1)
           | (None, w1) \<Rightarrow> (None, w1\<lparr>stdout := stdout w1 @ summary\<rparr>)))"

subsection \<open>Notions used to state the properties\<close>

text \<open>
  \<open>s.split(old)\<close> for a non-empty \<open>old\<close>: the pieces of \<open>s\<close> between the occurrences that
  \<open>replace_all\<close> replaces, and \<open>sep.join(pieces)\<close>.
\<close>

function split_on :: "'a list \<Rightarrow> 'a list \<Rightarrow> 'a list list" where
  "split_on old [] = [[]]"
| "split_on old (c # cs) =
     (if old \<noteq> [] \<and> prefix old (c # cs)
        then [] # split_on old (drop (length old) (c # cs))
        else (case split_on old cs of
                [] \<Rightarrow> [[c]]
              | piece # pieces \<Rightarrow> (c # piece) # pieces))"
  by pat_completeness auto
termination
  by (relation "measure (\<lambda>(old, s). length s)") (auto simp: Suc_le_eq)

fun join_with :: "'a list \<Rightarrow> 'a list list \<Rightarrow> 'a list" where
  "join_with sep [] = []"
| "join_with sep [p] = p"
| "join_with sep (p # q # ps) = p @ sep @ join_with sep (q # ps)"

text \<open>
  \<open>starts_clear x b\<close>: no non-empty end of \<open>x\<close> is the start of \<open>b\<close> or starts with \<open>b\<close>,
  so in no text an occurrence of \<open>b\<close> begins inside an occurrence of \<open>x\<close>. Two texts
  are \<open>apart\<close> when this holds both ways: their occurrences never overlap.
\<close>

fun starts_clear :: "'a list \<Rightarrow> 'a list \<Rightarrow> bool" where
  "starts_clear [] b = True"
| "starts_clear (x # xs) b =
     (\<not> prefix (x # xs) b \<and> \<not> prefix b (x # xs) \<and> starts_clear xs b)"

definition apart :: "'a list \<Rightarrow> 'a list \<Rightarrow> bool" where
  "apart x b = (starts_clear x b \<and> starts_clear b x)"

text \<open>What the first claim of the specification says of one step: the output is
  the input with one occurrence of \<open>old\<close> replaced by \<open>new\<close>.\<close>

definition single_splice :: "'a list \<Rightarrow> 'a list \<Rightarrow> 'a list \<Rightarrow> 'a list \<Rightarrow> bool" where
  "single_splice old new s t =
     list_ex (\<lambda>i. take (length old) (drop i s) = old \<and>
                  t = take i s @ new @ drop (i + length old) s) [0..<Suc (length s)]"

text \<open>\<open>s.replace(old, new, 1)\<close>: only the first occurrence is replaced.\<close>

definition replace_first :: "'a list \<Rightarrow> 'a list \<Rightarrow> 'a list \<Rightarrow> 'a list" where
  "replace_first old new s =
     (case find_idx old s of
        None \<Rightarrow> s
      | Some i \<Rightarrow> take i s @ new @ drop (i + length old) s)"

text \<open>Two concrete worlds: the file holds \<open>content\<close> and can be read and written;
  the file does not exist.\<close>

definition plain_world :: "string \<Rightarrow> world" where
  "plain_world content =
     \<lparr>stored = Some content, readable = True, writable = True, write_opens = 0, stdout = []\<rparr>"

definition missing_world :: world where
  "missing_world =
     \<lparr>stored = None, readable = True, writable = True, write_opens = 0, stdout = []\<rparr>"

text \<open>A small file that holds each of the three anchors once.\<close>

definition three_anchors :: string where
  "three_anchors = import_anchor @ [NL] @ tools_anchor @ [NL] @ write_anchor"


definition tools_with_comment :: string where
  "tools_with_comment = tools_group1 @ [NL] @ ''  // more below'' @ [NL] @ tools_group2"

definition tools_with_trailer :: string where
  "tools_with_trailer = tools_anchor @ '' // end''"

section \<open>Properties of \<open>replace_all\<close>\<close>

lemma replace_all_prefix:
  "old \<noteq> [] \<Longrightarrow> prefix old s \<Longrightarrow>
   replace_all old new s = new @ replace_all old new (drop (length old) s)"
  by (cases s) auto

lemma occurs_count: "occurs old s \<longleftrightarrow> 0 < count_occ old s"
  by (induction s) auto

lemma replace_all_absent:
  "old \<noteq> [] \<Longrightarrow> \<not> occurs old s \<Longrightarrow> replace_all old new s = s"
  by (induction s) auto

lemma starts_clear_suffix:
  "starts_clear x b \<Longrightarrow> suffix u x \<Longrightarrow> u \<noteq> [] \<Longrightarrow> \<not> prefix u b \<and> \<not> prefix b u"
proof (induction x)
  case Nil
  then show ?case by simp
next
  case (Cons a x)
  from Cons.prems(2) have "u = a # x \<or> suffix u x"
    by (auto simp: suffix_Cons)
  then show ?case using Cons by auto
qed

lemma prefix_append_cases:
  "prefix b (u @ r) \<Longrightarrow> prefix b u \<or> prefix u b"
  by (auto simp: prefix_def append_eq_append_conv2)

lemma starts_clear_no_prefix:
  assumes "starts_clear x b" "suffix u x" "u \<noteq> []"
  shows "\<not> prefix b (u @ r)"
  using starts_clear_suffix[OF assms] prefix_append_cases by blast

lemma count_skip:
  "starts_clear x b \<Longrightarrow> count_occ b (x @ r) = count_occ b r"
proof (induction x)
  case Nil
  then show ?case by simp
next
  case (Cons a x)
  have "\<not> prefix b ((a # x) @ r)"
    using starts_clear_no_prefix[OF Cons.prems, of "a # x" r] by simp
  then show ?case using Cons by simp
qed

text \<open>A replacement whose text is clear of \<open>b\<close> creates no occurrence of \<open>b\<close>
  at the head, and one whose anchor is clear of \<open>b\<close> destroys none.\<close>

lemma prefix_replace_back:
  "old \<noteq> [] \<Longrightarrow> starts_clear b new \<Longrightarrow> suffix p b \<Longrightarrow>
   prefix p (replace_all old new t) \<Longrightarrow> prefix p t"
proof (induction old new t arbitrary: p rule: replace_all.induct)
  case (1 old new)
  then show ?case by simp
next
  case (2 old new c cs)
  show ?case
  proof (cases p)
    case Nil
    then show ?thesis by simp
  next
    case (Cons q qs)
    show ?thesis
    proof (cases "prefix old (c # cs)")
      case True
      with 2 have "prefix p (new @ replace_all old new (drop (length old) (c # cs)))"
        by simp
      moreover have "p \<noteq> []" using Cons by simp
      ultimately show ?thesis
        using starts_clear_suffix[OF "2.prems"(2) "2.prems"(3)] prefix_append_cases by blast
    next
      case False
      with 2 Cons have pq: "q = c" "prefix qs (replace_all old new cs)"
        by auto
      have "suffix qs b" using "2.prems"(3) Cons by (meson suffix_ConsD)
      then have "prefix qs cs" using "2.IH"(3)[OF "2.prems"(1) False "2.prems"(1,2) _ pq(2)] by simp
      then show ?thesis using Cons pq by simp
    qed
  qed
qed

lemma prefix_replace_fwd:
  "old \<noteq> [] \<Longrightarrow> starts_clear b old \<Longrightarrow> suffix p b \<Longrightarrow>
   prefix p t \<Longrightarrow> prefix p (replace_all old new t)"
proof (induction old new t arbitrary: p rule: replace_all.induct)
  case (1 old new)
  then show ?case by simp
next
  case (2 old new c cs)
  show ?case
  proof (cases p)
    case Nil
    then show ?thesis by simp
  next
    case (Cons q qs)
    have inc: "\<not> prefix p old \<and> \<not> prefix old p"
      using starts_clear_suffix[OF "2.prems"(2) "2.prems"(3)] Cons by simp
    have np: "\<not> prefix old (c # cs)"
    proof
      assume "prefix old (c # cs)"
      with "2.prems"(4) have "prefix p old \<or> prefix old p"
        using prefix_same_cases by blast
      with inc show False by simp
    qed
    from "2.prems"(4) Cons have pq: "q = c" "prefix qs cs" by auto
    have "suffix qs b" using "2.prems"(3) Cons by (meson suffix_ConsD)
    then have "prefix qs (replace_all old new cs)"
      using "2.IH"(3)[OF "2.prems"(1) np "2.prems"(1,2) _ pq(2)] by simp
    then show ?thesis using Cons pq np "2.prems"(1) by simp
  qed
qed

lemma count_preserved:
  "old \<noteq> [] \<Longrightarrow> apart old b \<Longrightarrow> apart new b \<Longrightarrow>
   count_occ b (replace_all old new s) = count_occ b s"
proof (induction old new s rule: replace_all.induct)
  case (1 old new)
  then show ?case by simp
next
  case (2 old new c cs)
  show ?case
  proof (cases "prefix old (c # cs)")
    case True
    then obtain r where r: "c # cs = old @ r" by (auto simp: prefix_def)
    then have dr: "drop (length old) (c # cs) = r" by simp
    have "count_occ b (replace_all old new (c # cs)) = count_occ b (replace_all old new r)"
      using "2.prems" True dr count_skip[of new b] by (simp add: apart_def)
    also have "\<dots> = count_occ b r"
      using "2.IH"(2)[OF "2.prems"(1) True "2.prems"] dr by simp
    also have "\<dots> = count_occ b (c # cs)"
      using r count_skip[of old b r] "2.prems" by (simp add: apart_def)
    finally show ?thesis .
  next
    case False
    have eq: "replace_all old new (c # cs) = c # replace_all old new cs"
      using False "2.prems"(1) by simp
    have "prefix b (replace_all old new (c # cs)) \<longleftrightarrow> prefix b (c # cs)"
      using prefix_replace_back[OF "2.prems"(1), of b new b "c # cs"]
            prefix_replace_fwd[OF "2.prems"(1), of b b "c # cs" new] "2.prems"
      by (auto simp: apart_def)
    then show ?thesis
      using eq "2.IH"(3)[OF "2.prems"(1) False "2.prems"] by simp
  qed
qed


text \<open>An occurrence of a text that is apart from the anchor stays where it is.\<close>

lemma replace_all_through:
  "old \<noteq> [] \<Longrightarrow> starts_clear b old \<Longrightarrow> suffix p b \<Longrightarrow>
   replace_all old new (p @ post) = p @ replace_all old new post"
proof (induction p)
  case Nil
  then show ?case by simp
next
  case (Cons a p)
  have "\<not> prefix old ((a # p) @ post)"
    using starts_clear_no_prefix[OF Cons.prems(2,3)] by simp
  moreover have "suffix p b" using Cons.prems(3) by (meson suffix_ConsD)
  ultimately show ?case using Cons by simp
qed

lemma drop_append_le: "n \<le> length xs \<Longrightarrow> drop n (xs @ ys) = drop n xs @ ys"
  by simp

lemma prefix_drop: "prefix old xs \<Longrightarrow> old @ drop (length old) xs = xs"
  by (auto simp: prefix_def)

lemma prefix_append_split:
  "prefix old (xs @ ys) \<Longrightarrow> \<not> prefix old xs \<Longrightarrow>
   \<exists>us. us \<noteq> [] \<and> old = xs @ us \<and> prefix us ys"
  by (auto simp: prefix_append)

lemma replace_all_around:
  "old \<noteq> [] \<Longrightarrow> apart old b \<Longrightarrow>
   replace_all old new (pre @ b @ post) = replace_all old new pre @ b @ replace_all old new post"
proof (induction old new pre rule: replace_all.induct)
  case (1 old new)
  then show ?case using replace_all_through[of old b b new post] by (simp add: apart_def)
next
  case (2 old new c cs)
  show ?case
  proof (cases "prefix old (c # cs)")
    case True
    then have p: "prefix old ((c # cs) @ b @ post)" by (meson prefix_prefix)
    have d: "drop (length old) ((c # cs) @ b @ post) = drop (length old) (c # cs) @ b @ post"
      using prefix_length_le[OF True] by (rule drop_append_le)
    show ?thesis
      using replace_all_prefix[OF "2.prems"(1) p, of new]
            replace_all_prefix[OF "2.prems"(1) True, of new]
            "2.IH"(2)[OF "2.prems"(1) True "2.prems"] d by simp
  next
    case False
    have "\<not> prefix old ((c # cs) @ b @ post)"
    proof
      assume a: "prefix old ((c # cs) @ b @ post)"
      obtain us where us: "us \<noteq> []" "old = (c # cs) @ us" "prefix us (b @ post)"
        using prefix_append_split[OF a False] by blast
      have "suffix us old" using us(2) by (simp add: suffix_def)
      then have "\<not> prefix us b \<and> \<not> prefix b us"
        using starts_clear_suffix[of old b us] "2.prems" us(1) by (simp add: apart_def)
      with us(3) prefix_append_cases show False by blast
    qed
    then show ?thesis
      using False "2.prems" "2.IH"(3)[OF "2.prems"(1) False "2.prems"] by simp
  qed
qed

lemma find_idx_None: "find_idx old s = None \<longleftrightarrow> \<not> occurs old s"
  by (induction s) auto

lemma find_idx_Some_le: "find_idx old s = Some i \<Longrightarrow> i + length old \<le> length s"
proof (induction s arbitrary: i)
  case Nil
  then show ?case by (simp split: if_splits)
next
  case (Cons c cs)
  then show ?case by (auto split: if_splits dest: prefix_length_le)
qed

lemma find_idx_Some_at:
  "find_idx old s = Some i \<Longrightarrow> take (length old) (drop i s) = old"
proof (induction s arbitrary: i)
  case Nil
  then show ?case by (simp split: if_splits)
next
  case (Cons c cs)
  then show ?case by (auto split: if_splits simp: prefix_def)
qed

lemma replace_all_first:
  "old \<noteq> [] \<Longrightarrow> find_idx old s = Some i \<Longrightarrow>
   replace_all old new s = take i s @ new @ replace_all old new (drop (i + length old) s)"
proof (induction s arbitrary: i)
  case Nil
  then show ?case by simp
next
  case (Cons c cs)
  then show ?case by (auto split: if_splits)
qed

lemma count_occ_drop: "count_occ old (drop k s) \<le> count_occ old s"
proof (induction s arbitrary: k)
  case Nil
  then show ?case by simp
next
  case (Cons c cs)
  show ?case
  proof (cases k)
    case 0
    then show ?thesis by simp
  next
    case (Suc j)
    then show ?thesis using Cons[of j] by simp
  qed
qed

lemma count_occ_after_first:
  "old \<noteq> [] \<Longrightarrow> find_idx old s = Some i \<Longrightarrow>
   Suc (count_occ old (drop (i + length old) s)) \<le> count_occ old s"
proof (induction s arbitrary: i)
  case Nil
  then show ?case by simp
next
  case (Cons c cs)
  show ?case
  proof (cases "prefix old (c # cs)")
    case True
    with Cons.prems have i: "i = 0" by simp
    obtain n where n: "length old = Suc n" using Cons.prems(1) by (cases old) auto
    show ?thesis using True i n count_occ_drop[of old n cs] by simp
  next
    case False
    with Cons.prems obtain j where j: "i = Suc j" "find_idx old cs = Some j" by auto
    show ?thesis using False j Cons.IH[OF Cons.prems(1) j(2)] by simp
  qed
qed

lemma replace_all_once:
  assumes "old \<noteq> []" "count_occ old s = 1"
  shows "\<exists>i. find_idx old s = Some i \<and>
             replace_all old new s = take i s @ new @ drop (i + length old) s"
proof -
  have "occurs old s" using assms(2) by (simp add: occurs_count)
  then obtain i where i: "find_idx old s = Some i"
    using find_idx_None[of old s] by (cases "find_idx old s") auto
  have "count_occ old (drop (i + length old) s) = 0"
    using count_occ_after_first[OF assms(1) i] assms(2) by simp
  then have "replace_all old new (drop (i + length old) s) = drop (i + length old) s"
    using replace_all_absent[OF assms(1)] by (simp add: occurs_count)
  then show ?thesis using replace_all_first[OF assms(1) i, of new] i by simp
qed








lemma join_with_Cons: "join_with sep ((c # p) # ps) = c # join_with sep (p # ps)"
  by (cases ps) auto

lemma split_on_nonempty: "split_on old s \<noteq> []"
  by (cases s) (auto split: list.splits)

lemma split_on_join:
  "join_with old (split_on old s) = s"
proof (induction old s rule: split_on.induct)
  case (1 old)
  then show ?case by simp
next
  case (2 old c cs)
  show ?case
  proof (cases "old \<noteq> [] \<and> prefix old (c # cs)")
    case True
    then have p: "prefix old (c # cs)" by simp
    have s1: "split_on old (c # cs) = [] # split_on old (drop (length old) (c # cs))"
      using True by simp
    obtain q qs where q: "split_on old (drop (length old) (c # cs)) = q # qs"
      using split_on_nonempty[of old "drop (length old) (c # cs)"] by (auto simp: neq_Nil_conv)
    have "join_with old (split_on old (c # cs)) = old @ join_with old (q # qs)"
      using s1 q by simp
    also have "\<dots> = old @ drop (length old) (c # cs)"
      using "2.IH"(1)[OF True] q by simp
    also have "\<dots> = c # cs"
      using p by (rule prefix_drop)
    finally show ?thesis .
  next
    case False
    then show ?thesis using "2.IH"(2)[OF False] 
      by (auto split: list.splits simp: join_with_Cons)
  qed
qed

lemma replace_all_join:
  "old \<noteq> [] \<Longrightarrow> replace_all old new s = join_with new (split_on old s)"
proof (induction old s rule: split_on.induct)
  case (1 old)
  then show ?case by simp
next
  case (2 old c cs)
  show ?case
  proof (cases "prefix old (c # cs)")
    case True
    obtain q qs where q: "split_on old (drop (length old) (c # cs)) = q # qs"
      using split_on_nonempty[of old "drop (length old) (c # cs)"] by (auto simp: neq_Nil_conv)
    show ?thesis using True "2.prems" "2.IH"(1) q by simp
  next
    case False
    then show ?thesis using "2.prems" "2.IH"(2)
      by (auto split: list.splits simp: join_with_Cons)
  qed
qed

lemma replace_all_length_le:
  "old \<noteq> [] \<Longrightarrow> length old \<le> length new \<Longrightarrow> length s \<le> length (replace_all old new s)"
proof (induction old new s rule: replace_all.induct)
  case (1 old new)
  then show ?case by simp
next
  case (2 old new c cs)
  show ?case
  proof (cases "prefix old (c # cs)")
    case True
    have "length (drop (length old) (c # cs)) = length (c # cs) - length old" by simp
    moreover have "length old \<le> length (c # cs)" using True by (rule prefix_length_le)
    ultimately show ?thesis
      using True "2.prems" "2.IH"(2)[OF "2.prems"(1) True "2.prems"] by simp
  next
    case False
    then show ?thesis using "2.prems" "2.IH"(3)[OF "2.prems"(1) False "2.prems"] by simp
  qed
qed

lemma replace_all_length_less:
  "old \<noteq> [] \<Longrightarrow> length old < length new \<Longrightarrow> occurs old s \<Longrightarrow>
   length s < length (replace_all old new s)"
proof (induction old new s rule: replace_all.induct)
  case (1 old new)
  then show ?case by simp
next
  case (2 old new c cs)
  show ?case
  proof (cases "prefix old (c # cs)")
    case True
    define d where "d = drop (length old) (c # cs)"
    have l1: "length d = length (c # cs) - length old" by (simp add: d_def)
    have l2: "length old \<le> length (c # cs)" using True by (rule prefix_length_le)
    have l3: "length d \<le> length (replace_all old new d)"
      using replace_all_length_le[of old new d] "2.prems" by simp
    have "replace_all old new (c # cs) = new @ replace_all old new d"
      using True "2.prems"(1) by (simp add: d_def)
    then have "length (replace_all old new (c # cs)) = length new + length (replace_all old new d)"
      by simp
    then show ?thesis using l1 l2 l3 "2.prems"(2) by linarith
  next
    case False
    then show ?thesis using "2.prems" "2.IH"(3)[OF "2.prems"(1) False "2.prems"(1,2)] by simp
  qed
qed


lemma replace_all_self: "old \<noteq> [] \<Longrightarrow> replace_all old new (old @ r) = new @ replace_all old new r"
  using replace_all_prefix[of old "old @ r" new] by simp

section \<open>Facts about the texts of the script\<close>

text \<open>The anchors are not empty, and the texts below never overlap each other;
  both are decided by evaluation.\<close>

lemma anchors_nonempty:
  "import_anchor \<noteq> []" "tools_anchor \<noteq> []" "write_anchor \<noteq> []"
  by (simp_all add: import_anchor_def tools_anchor_def write_anchor_def)

lemma tools_replacement_eq:
  "tools_replacement = tools_group1 @ tools_addition @ [NL, CHR 0x02]"
  by (simp add: tools_replacement_def tools_template_def)

lemma apart_import_tools: "apart import_anchor tools_anchor" "apart import_replacement tools_anchor"
  by code_simp+

lemma apart_import_write: "apart import_anchor write_anchor" "apart import_replacement write_anchor"
  by code_simp+

lemma apart_tools_write: "apart tools_anchor write_anchor" "apart tools_replacement write_anchor"
  by code_simp+







section \<open>The run: reading, writing and the summary\<close>

lemma main_success:
  "stored w = Some content \<Longrightarrow> readable w \<Longrightarrow> writable w \<Longrightarrow>
   main w = (None, w\<lparr>write_opens := Suc (write_opens w), stored := Some (transform content),
                      stdout := stdout w @ summary\<rparr>)"
  by (simp add: main_def read_file_def write_file_def)

text \<open>
  Claim C9. If reading the target file fails (the file is missing or may not be read),
  the run ends with that error before any write: the file is never opened for
  writing, nothing is printed, and the stored content is unchanged.
\<close>

theorem read_failure_aborts:
  "stored w = None \<or> \<not> readable w \<Longrightarrow>
   (\<exists>e. read_file w = Inl e \<and> main w = (Some e, w)) \<and>
   write_opens (snd (main w)) = write_opens w \<and>
   stored (snd (main w)) = stored w \<and>
   stdout (snd (main w)) = stdout w"
  by (auto simp: main_def read_file_def split: option.splits)

theorem read_failure_aborts_witness:
  "(stored missing_world = None \<or> \<not> readable missing_world) \<and>
   main missing_world = (Some FileNotFoundError, missing_world) \<and>
   write_opens (snd (main missing_world)) = 0 \<and>
   stored (snd (main missing_world)) = None \<and>
   stdout (snd (main missing_world)) = []"
  using read_failure_aborts[of missing_world]
  by (simp add: missing_world_def read_file_def)

text \<open>
  Claim C5, as amended. Whenever the run succeeds, the printed summary is the same
  four lines, whatever the content was: it lists all three categories of change
  whether or not their anchors were found, and it reports no skipped region.
\<close>

theorem summary_fixed:
  "stored w = Some content \<Longrightarrow> readable w \<Longrightarrow> writable w \<Longrightarrow>
   fst (main w) = None \<and>
   stdout (snd (main w)) = stdout w @
     [''Successfully updated index.ts'',
      ''- Added file-management import'',
      ''- Added 9 new tools to tools array'',
      ''- Added 7 write operations to writeOperations set'']"
  by (simp add: main_success summary_def)

theorem summary_fixed_witness:
  "stored (plain_world ''export {};'') = Some ''export {};'' \<and>
   readable (plain_world ''export {};'') \<and> writable (plain_world ''export {};'') \<and>
   fst (main (plain_world ''export {};'')) = None \<and>
   stdout (snd (main (plain_world ''export {};''))) =
     [''Successfully updated index.ts'',
      ''- Added file-management import'',
      ''- Added 9 new tools to tools array'',
      ''- Added 7 write operations to writeOperations set'']"
  using summary_fixed[of "plain_world ''export {};''" "''export {};''"]
  by (simp add: plain_world_def)

lemma transform_plain: "transform ''export {};'' = ''export {};''"
  by code_simp

text \<open>
  Claim C5 as stated fails: on a file without any anchor nothing is inserted, yet the
  summary reports the import as added.
\<close>

theorem summary_counterexample:
  "stored (snd (main (plain_world ''export {};''))) = Some ''export {};'' \<and>
   apply_import ''export {};'' = ''export {};'' \<and>
   ''- Added file-management import'' \<in> set (stdout (snd (main (plain_world ''export {};''))))"
proof -
  have m: "main (plain_world ''export {};'') =
      (None, (plain_world ''export {};'')\<lparr>write_opens := Suc 0,
         stored := Some (transform ''export {};''), stdout := summary\<rparr>)"
    using main_success[of "plain_world ''export {};''" "''export {};''"]
    by (simp add: plain_world_def)
  have a: "apply_import ''export {};'' = ''export {};''"
    by code_simp
  show ?thesis using m a transform_plain by (simp add: summary_def)
qed

section \<open>One region applied to a content\<close>

lemma tools_lengths: "length tools_anchor < length tools_replacement"
  by code_simp

text \<open>
  Claim C2, as amended. Each region replaces at the first occurrence of its anchor
  and then goes on in the same way with the text after that occurrence: every
  occurrence that does not overlap an earlier one is replaced, not the first only.
\<close>

theorem first_match_then_rest:
  "(find_idx import_anchor s = Some i \<longrightarrow>
      apply_import s = take i s @ import_replacement @
        apply_import (drop (i + length import_anchor) s)) \<and>
   (find_idx tools_anchor s = Some j \<longrightarrow>
      apply_tools s = take j s @ tools_replacement @
        apply_tools (drop (j + length tools_anchor) s)) \<and>
   (find_idx write_anchor s = Some k \<longrightarrow>
      apply_write_ops s = take k s @ write_replacement @
        apply_write_ops (drop (k + length write_anchor) s))"
  using replace_all_first[OF anchors_nonempty(1), of s i import_replacement]
        replace_all_first[OF anchors_nonempty(2), of s j tools_replacement]
        replace_all_first[OF anchors_nonempty(3), of s k write_replacement]
  by (simp add: apply_import_def apply_tools_def apply_write_ops_def)

lemma three_anchors_idx:
  "find_idx import_anchor three_anchors = Some 0"
  "find_idx tools_anchor three_anchors = Some 33"
  "find_idx write_anchor three_anchors = Some 56"
  by code_simp+

theorem first_match_then_rest_witness:
  "find_idx import_anchor three_anchors = Some 0 \<and>
   apply_import three_anchors = take 0 three_anchors @ import_replacement @
        apply_import (drop (0 + length import_anchor) three_anchors) \<and>
   find_idx tools_anchor three_anchors = Some 33 \<and>
   apply_tools three_anchors = take 33 three_anchors @ tools_replacement @
        apply_tools (drop (33 + length tools_anchor) three_anchors) \<and>
   find_idx write_anchor three_anchors = Some 56 \<and>
   apply_write_ops three_anchors = take 56 three_anchors @ write_replacement @
        apply_write_ops (drop (56 + length write_anchor) three_anchors)"
  using first_match_then_rest[of three_anchors 0 33 56] three_anchors_idx
  by blast

text \<open>
  Claim C2 as stated fails: when the import anchor occurs twice, both occurrences
  are replaced, while replacing the first occurrence only leaves the second as it was.
\<close>

theorem every_occurrence_counterexample:
  "apply_import (import_anchor @ import_anchor) = import_replacement @ import_replacement \<and>
   replace_first import_anchor import_replacement (import_anchor @ import_anchor)
     = import_replacement @ import_anchor"
  by code_simp

text \<open>
  Claim C3. When the anchor of a region occurs exactly once in the content, applying
  the region puts its insertion block into the output exactly once: the output is the
  content with that one occurrence replaced by a text that holds the block once.
\<close>

theorem single_insertion:
  "(count_occ import_anchor s = 1 \<longrightarrow>
      (\<exists>i. find_idx import_anchor s = Some i \<and>
           apply_import s = take i s @ (import_anchor @ [NL] @ import_statement) @
             drop (i + length import_anchor) s)) \<and>
   (count_occ tools_anchor s = 1 \<longrightarrow>
      (\<exists>i. find_idx tools_anchor s = Some i \<and>
           apply_tools s = take i s @ (tools_group1 @ tools_addition @ [NL, CHR 0x02]) @
             drop (i + length tools_anchor) s)) \<and>
   (count_occ write_anchor s = 1 \<longrightarrow>
      (\<exists>i. find_idx write_anchor s = Some i \<and>
           apply_write_ops s =
             take i s @ (''  'sqlserver_delete_job','' @ [NL] @ write_ops @ '']);'') @
             drop (i + length write_anchor) s))"
  using replace_all_once[OF anchors_nonempty(1), of s import_replacement]
        replace_all_once[OF anchors_nonempty(2), of s tools_replacement]
        replace_all_once[OF anchors_nonempty(3), of s write_replacement]
  unfolding apply_import_def apply_tools_def apply_write_ops_def
    tools_replacement_eq import_replacement_def write_replacement_def
  by blast

lemma three_anchors_counts:
  "count_occ import_anchor three_anchors = 1"
  "count_occ tools_anchor three_anchors = 1"
  "count_occ write_anchor three_anchors = 1"
  by code_simp+

theorem single_insertion_witness:
  "count_occ import_anchor three_anchors = 1 \<and>
   (\<exists>i. find_idx import_anchor three_anchors = Some i \<and>
        apply_import three_anchors = take i three_anchors @
          (import_anchor @ [NL] @ import_statement) @
          drop (i + length import_anchor) three_anchors) \<and>
   count_occ tools_anchor three_anchors = 1 \<and>
   (\<exists>i. find_idx tools_anchor three_anchors = Some i \<and>
        apply_tools three_anchors = take i three_anchors @
          (tools_group1 @ tools_addition @ [NL, CHR 0x02]) @
          drop (i + length tools_anchor) three_anchors) \<and>
   count_occ write_anchor three_anchors = 1 \<and>
   (\<exists>i. find_idx write_anchor three_anchors = Some i \<and>
        apply_write_ops three_anchors = take i three_anchors @
          (''  'sqlserver_delete_job','' @ [NL] @ write_ops @ '']);'') @
          drop (i + length write_anchor) three_anchors)"
  using single_insertion[of three_anchors] three_anchors_counts
  by blast

text \<open>
  Claim C1, as amended. For every content and every region, the output differs from
  the input only at the occurrences of the anchor that the region replaces, one
  replacement for each: the content is its pieces joined by the anchor, the output is
  the same pieces joined by the replacement text, so every character outside the
  replaced occurrences is unchanged.
\<close>

theorem pieces_unchanged:
  "join_with import_anchor (split_on import_anchor s) = s \<and>
   apply_import s = join_with import_replacement (split_on import_anchor s) \<and>
   join_with tools_anchor (split_on tools_anchor s) = s \<and>
   apply_tools s = join_with tools_replacement (split_on tools_anchor s) \<and>
   join_with write_anchor (split_on write_anchor s) = s \<and>
   apply_write_ops s = join_with write_replacement (split_on write_anchor s)"
  using replace_all_join[OF anchors_nonempty(1), of import_replacement s]
        replace_all_join[OF anchors_nonempty(2), of tools_replacement s]
        replace_all_join[OF anchors_nonempty(3), of write_replacement s]
  by (simp add: split_on_join apply_import_def apply_tools_def apply_write_ops_def)

theorem pieces_unchanged_witness:
  "split_on import_anchor (''a'' @ import_anchor @ ''b'' @ import_anchor @ ''c'')
     = [''a'', ''b'', ''c''] \<and>
   apply_import (''a'' @ import_anchor @ ''b'' @ import_anchor @ ''c'')
     = ''a'' @ import_replacement @ ''b'' @ import_replacement @ ''c''"
proof -
  have sp: "split_on import_anchor (''a'' @ import_anchor @ ''b'' @ import_anchor @ ''c'')
     = [''a'', ''b'', ''c'']"
    by code_simp
  show ?thesis
    using pieces_unchanged[of "''a'' @ import_anchor @ ''b'' @ import_anchor @ ''c''"] sp
    by simp
qed

text \<open>
  Claim C1 as stated fails: when the import anchor occurs twice, the output is not
  the input with a single occurrence replaced.
\<close>

theorem single_splice_counterexample:
  "\<not> single_splice import_anchor import_replacement (import_anchor @ import_anchor)
       (apply_import (import_anchor @ import_anchor))"
  by code_simp

section \<open>The three regions together\<close>

text \<open>
  Claim C8. The import-block step neither destroys nor creates an occurrence of the
  registration-list anchor or of the identifier-set anchor, and the registration-list
  step neither destroys nor creates an occurrence of the identifier-set anchor: the
  number of occurrences is the same before and after, and an occurrence of a later
  anchor stays in place while the earlier step rewrites the text on either side.
\<close>

theorem later_anchors_untouched:
  "count_occ tools_anchor (apply_import s) = count_occ tools_anchor s \<and>
   count_occ write_anchor (apply_import s) = count_occ write_anchor s \<and>
   count_occ write_anchor (apply_tools s) = count_occ write_anchor s \<and>
   apply_import (l @ tools_anchor @ r) = apply_import l @ tools_anchor @ apply_import r \<and>
   apply_import (l @ write_anchor @ r) = apply_import l @ write_anchor @ apply_import r \<and>
   apply_tools (l @ write_anchor @ r) = apply_tools l @ write_anchor @ apply_tools r"
  unfolding apply_import_def apply_tools_def
  using count_preserved[OF anchors_nonempty(1) apart_import_tools, of s]
        count_preserved[OF anchors_nonempty(1) apart_import_write, of s]
        count_preserved[OF anchors_nonempty(2) apart_tools_write, of s]
        replace_all_around[OF anchors_nonempty(1) apart_import_tools(1), of import_replacement l r]
        replace_all_around[OF anchors_nonempty(1) apart_import_write(1), of import_replacement l r]
        replace_all_around[OF anchors_nonempty(2) apart_tools_write(1), of tools_replacement l r]
  by simp

lemma import_small:
  "apply_import (import_anchor @ [NL]) = import_replacement @ [NL]"
  "apply_import ([NL] @ write_anchor) = [NL] @ write_anchor"
proof -
  have "\<not> occurs import_anchor [NL]" by code_simp
  then show "apply_import (import_anchor @ [NL]) = import_replacement @ [NL]"
    unfolding apply_import_def
    using replace_all_self[OF anchors_nonempty(1), of import_replacement "[NL]"]
          replace_all_absent[OF anchors_nonempty(1), of "[NL]" import_replacement]
    by simp
  have "\<not> occurs import_anchor ([NL] @ write_anchor)" by code_simp
  then show "apply_import ([NL] @ write_anchor) = [NL] @ write_anchor"
    unfolding apply_import_def
    using replace_all_absent[OF anchors_nonempty(1)] by blast
qed

theorem later_anchors_untouched_witness:
  "count_occ tools_anchor (apply_import three_anchors) = 1 \<and>
   count_occ write_anchor (apply_import three_anchors) = 1 \<and>
   count_occ write_anchor (apply_tools three_anchors) = 1 \<and>
   apply_import ((import_anchor @ [NL]) @ tools_anchor @ ([NL] @ write_anchor))
     = (import_replacement @ [NL]) @ tools_anchor @ ([NL] @ write_anchor)"
  using later_anchors_untouched[of three_anchors "import_anchor @ [NL]" "[NL] @ write_anchor"]
    three_anchors_counts import_small
  by simp

















lemma tools_at_anchor: "apply_tools (tools_anchor @ r) = tools_replacement @ apply_tools r"
  unfolding apply_tools_def by (rule replace_all_self[OF anchors_nonempty(2)])

lemma tools_anchor_other:
  "\<not> occurs import_anchor tools_anchor"
  "\<not> occurs write_anchor tools_replacement"
  "\<not> occurs ([NL] @ tools_group2) tools_replacement"
  by code_simp+

text \<open>
  Claim C6 fails on the code. On the block \<open>  getWaitStatsTool,\<close>, newline, \<open>];\<close> the
  registration-list step keeps the first line and adds the new lines, but puts a
  newline and the character with code 2 where the claim has a newline and \<open>];\<close>:
  the closing delimiter is gone from the output.
\<close>

theorem registration_list_loses_delimiter:
  "apply_tools tools_anchor = tools_group1 @ tools_addition @ [NL, CHR 0x02] \<and>
   transform tools_anchor = tools_group1 @ tools_addition @ [NL, CHR 0x02] \<and>
   \<not> occurs ([NL] @ tools_group2) (transform tools_anchor)"
proof -
  have a: "apply_tools tools_anchor = tools_replacement"
    using tools_at_anchor[of "[]"] anchors_nonempty(2) by (simp add: apply_tools_def)
  have i: "apply_import tools_anchor = tools_anchor"
    unfolding apply_import_def
    using replace_all_absent[OF anchors_nonempty(1) tools_anchor_other(1)] .
  have w: "apply_write_ops tools_replacement = tools_replacement"
    unfolding apply_write_ops_def
    using replace_all_absent[OF anchors_nonempty(3) tools_anchor_other(2)] .
  have t: "transform tools_anchor = tools_replacement"
    by (simp add: transform_def i a w)
  show ?thesis
    using a t tools_anchor_other(3) by (simp add: tools_replacement_eq)
qed

text \<open>
  Claim C10, as amended. The registration-list step changes the content exactly when
  the text \<open>  getWaitStatsTool,\<close> is somewhere followed at once by a newline and the two
  characters \<open>];\<close>, whatever stands before that text or after those characters on
  their lines. When the text occurs but is nowhere followed in this way, the step
  leaves the content entirely unchanged.
\<close>

theorem tools_applied_iff:
  "(apply_tools s \<noteq> s \<longleftrightarrow> occurs (tools_group1 @ [NL] @ ''];'') s) \<and>
   (occurs tools_group1 s \<and> \<not> occurs (tools_group1 @ [NL] @ ''];'') s \<longrightarrow> apply_tools s = s)"
proof -
  have e: "tools_group1 @ [NL] @ ''];'' = tools_anchor"
    by (simp add: tools_anchor_def tools_group2_def)
  have "length s < length (apply_tools s)" if "occurs tools_anchor s"
    unfolding apply_tools_def
    using replace_all_length_less[OF anchors_nonempty(2) tools_lengths that] .
  then have "apply_tools s \<noteq> s" if "occurs tools_anchor s"
    using that by fastforce
  moreover have "apply_tools s = s" if "\<not> occurs tools_anchor s"
    unfolding apply_tools_def using replace_all_absent[OF anchors_nonempty(2) that] .
  ultimately show ?thesis unfolding e by blast
qed

lemma tools_with_comment_facts:
  "occurs tools_group1 tools_with_comment"
  "\<not> occurs (tools_group1 @ [NL] @ ''];'') tools_with_comment"
  by code_simp+

theorem tools_applied_iff_witness:
  "occurs tools_group1 tools_with_comment \<and>
   \<not> occurs (tools_group1 @ [NL] @ ''];'') tools_with_comment \<and>
   apply_tools tools_with_comment = tools_with_comment"
  using tools_applied_iff[of tools_with_comment] tools_with_comment_facts
  by blast

text \<open>
  Claim C10 as stated fails: the step is also applied when the line after the
  anchor line starts with \<open>];\<close> and goes on, so that it does not consist of \<open>];\<close> only.
\<close>

theorem trailing_text_counterexample:
  "tools_with_trailer = tools_group1 @ [NL] @ ''];'' @ '' // end'' \<and>
   apply_tools tools_with_trailer = tools_replacement @ '' // end'' \<and>
   apply_tools tools_with_trailer \<noteq> tools_with_trailer"
proof -
  have n: "\<not> occurs tools_anchor '' // end''" by code_simp
  have a: "apply_tools tools_with_trailer = tools_replacement @ '' // end''"
    unfolding tools_with_trailer_def
    using tools_at_anchor[of "'' // end''"] replace_all_absent[OF anchors_nonempty(2) n]
    by (simp add: apply_tools_def)
  have "length (tools_replacement @ '' // end'') \<noteq> length tools_with_trailer"
    unfolding tools_with_trailer_def using tools_lengths by simp
  then have "tools_replacement @ '' // end'' \<noteq> tools_with_trailer"
    by fastforce
  then show ?thesis using a
    by (simp add: tools_with_trailer_def tools_anchor_def tools_group2_def)
qed

end
